theory Spec2Isabelle
  imports Main "HOL-Library.Sublist" "HOL-Library.Multiset" "HOL-Library.Char_ord"
    "HOL-Library.List_Lexorder"
begin

section \<open>Batch utilities: the Excel image downloader and the bulk image converter\<close>

text \<open>
  A shallow embedding of \<^verbatim>\<open>image_link_downloader/main.py\<close> (class
  \<^verbatim>\<open>ExcelImageDownloader\<close>) and \<^verbatim>\<open>bulk_image_extension_converter/ex.py\<close>
  (class \<^verbatim>\<open>BulkImageConverter\<close>).

  The libraries the scripts call (the HTTP client, the spreadsheet reader, the imaging
  library, the URL parser, directory globbing) are parameters of the model: each is a
  function whose result says what the call returned or which exception it raised.
  The file system is explicit state. Console and log output is not modelled.
\<close>

subsection \<open>The file system and the trace of external calls\<close>

text \<open>
  A path names a directory, a file with its contents, or a written CSV table (its
  header and its rows of cells). Paths are compared as strings. Besides the files, the
  state records every call that reaches an external operation: an HTTP request, a
  target file opened for writing, the retry list written, a call of the codec.
\<close>

datatype node = Dir | File string | Table "string list" "string list list"

datatype event =
    NetGet string
  | OpenWrite string
  | WriteCsv string
  | CodecCall string string

record world =
  files :: "string \<rightharpoonup> node"
  trace :: "event list"

definition path_exists :: "world \<Rightarrow> string \<Rightarrow> bool" where
  "path_exists w p = (files w p \<noteq> None)"

text \<open>\<^verbatim>\<open>os.path.join(a, b)\<close> of \<^verbatim>\<open>posixpath\<close>, for two components.\<close>

definition path_join :: "string \<Rightarrow> string \<Rightarrow> string" where
  "path_join a b =
     (if b \<noteq> [] \<and> hd b = CHR ''/'' then b
      else if a = [] \<or> last a = CHR ''/'' then a @ b
      else a @ ''/'' @ b)"

fun is_write :: "event \<Rightarrow> bool" where
  "is_write (OpenWrite p) = True"
| "is_write e = False"

subsection \<open>The downloader: collaborators and records\<close>

text \<open>
  What \<^verbatim>\<open>requests.get(url, ..., stream=True)\<close> followed by
  \<^verbatim>\<open>raise_for_status()\<close> does: it raises a
  \<^verbatim>\<open>requests.exceptions.RequestException\<close>, or some other exception, or it
  gives a response. A response has its content-type header (empty when absent), the
  chunks that \<^verbatim>\<open>iter_content\<close> yields, and the message of the exception that
  ends the stream early, if one does. The strings carried by the exceptions are their
  \<^verbatim>\<open>str(e)\<close>.
\<close>

datatype response =
    RaisesRequest string
  | RaisesOther string
  | Response string "string list" "string option"

text \<open>
  The fields of \<^verbatim>\<open>self\<close> that the methods read, and the collaborators:
  \<open>http_get\<close> as above; \<open>open_wb p\<close> is the message of the exception that
  \<^verbatim>\<open>open(p, 'wb')\<close> raises, \<open>None\<close> when the file opens;
  \<open>urlparse_path u\<close> is \<^verbatim>\<open>urlparse(u).path\<close>, \<open>None\<close> when
  \<^verbatim>\<open>urlparse\<close> raises; \<open>read_excel p engine\<close> is the table that
  \<^verbatim>\<open>pd.read_excel\<close> returns, or the message of the exception it raises.
\<close>

text \<open>
  A cell of the table is empty (\<^verbatim>\<open>NaN\<close>), a string, or a value of another type,
  kept as its \<^verbatim>\<open>str\<close>. A row maps column names to cells.
\<close>

datatype cell = NaN | Str string | NonStr string

type_synonym row = "(string \<times> cell) list"

record dataframe =
  columns :: "string list"
  rows :: "row list"

record downloader =
  excel_path :: string
  url_column :: string
  output_dir :: string
  http_get :: "string \<Rightarrow> response"
  open_wb :: "string \<Rightarrow> string option"
  urlparse_path :: "string \<Rightarrow> string option"
  read_excel :: "string \<Rightarrow> string \<Rightarrow> string + dataframe"

text \<open>The dictionary that \<^verbatim>\<open>download_image\<close> returns.\<close>

record outcome =
  index :: nat
  url :: string
  filename :: string
  status :: string
  error :: "string option"

definition mk_outcome :: "nat \<Rightarrow> string \<Rightarrow> string \<Rightarrow> string \<Rightarrow> string option \<Rightarrow> outcome" where
  "mk_outcome i u fn st er =
     \<lparr>index = i, url = u, filename = fn, status = st, error = er\<rparr>"

subsection \<open>\<^verbatim>\<open>download_image\<close>\<close>

text \<open>
  The whole body is inside \<^verbatim>\<open>try\<close>; both handlers build the same failed
  record from \<^verbatim>\<open>str(e)\<close>. The file is opened only after the request has
  succeeded and the content type has been accepted. Once it is open, the chunks
  received are in the file whether or not the stream then fails: the handlers do not
  remove it.
\<close>

definition download_image ::
  "downloader \<Rightarrow> world \<Rightarrow> string \<Rightarrow> string \<Rightarrow> nat \<Rightarrow> outcome \<times> world" where
  "download_image self w u fn i =
     (let filepath = path_join (output_dir self) fn in
      if path_exists w filepath then (mk_outcome i u fn ''skipped'' None, w)
      else
        let w1 = w\<lparr>trace := trace w @ [NetGet u]\<rparr> in
        case http_get self u of
          RaisesRequest m \<Rightarrow> (mk_outcome i u fn ''failed'' (Some m), w1)
        | RaisesOther m \<Rightarrow> (mk_outcome i u fn ''failed'' (Some m), w1)
        | Response content_type chunks stream_error \<Rightarrow>
            if \<not> sublist ''image'' content_type
            then (mk_outcome i u fn ''failed'' (Some ''Not an image''), w1)
            else
              (case open_wb self filepath of
                 Some m \<Rightarrow> (mk_outcome i u fn ''failed'' (Some m), w1)
               | None \<Rightarrow>
                   let w2 = w1\<lparr>files := (files w1)(filepath \<mapsto> File (concat chunks)),
                               trace := trace w1 @ [OpenWrite filepath]\<rparr> in
                   (case stream_error of
                      None \<Rightarrow> (mk_outcome i u fn ''success'' None, w2)
                    | Some m \<Rightarrow> (mk_outcome i u fn ''failed'' (Some m), w2))))"

subsection \<open>\<^verbatim>\<open>load_excel_data\<close>\<close>

fun notna :: "cell \<Rightarrow> bool" where
  "notna NaN = False"
| "notna c = True"

fun cell_str :: "cell \<Rightarrow> string" where
  "cell_str NaN = ''nan''"
| "cell_str (Str s) = s"
| "cell_str (NonStr s) = s"

text \<open>\<^verbatim>\<open>sep.join(xs)\<close>.\<close>

fun join :: "string \<Rightarrow> string list \<Rightarrow> string" where
  "join sep [] = []"
| "join sep [x] = x"
| "join sep (x # y # ys) = x @ sep @ join sep (y # ys)"

text \<open>The column \<^verbatim>\<open>df[c]\<close>, one cell per row; a row without the key counts as empty.\<close>

definition column :: "dataframe \<Rightarrow> string \<Rightarrow> cell list" where
  "column df c = map (\<lambda>r. case map_of r c of None \<Rightarrow> NaN | Some v \<Rightarrow> v) (rows df)"

datatype load_error = ValueError string | ReadError string

definition load_excel_data :: "downloader \<Rightarrow> load_error + (dataframe \<times> string list)" where
  "load_excel_data self =
     (let loaded =
        (if suffix ''.xlsx'' (excel_path self)
         then (case read_excel self (excel_path self) ''openpyxl'' of
                 Inl m \<Rightarrow> Inl (ReadError m) | Inr df \<Rightarrow> Inr df)
         else if suffix ''.xls'' (excel_path self)
         then (case read_excel self (excel_path self) ''xlrd'' of
                 Inl m \<Rightarrow> Inl (ReadError m) | Inr df \<Rightarrow> Inr df)
         else Inl (ValueError ''Unsupported file format. Use .xlsx or .xls''))
      in case loaded of
           Inl e \<Rightarrow> Inl e
         | Inr df \<Rightarrow>
             if url_column self \<notin> set (columns df)
             then Inl (ValueError (''Column '' @ [CHR 0x27] @ url_column self @ [CHR 0x27]
                        @ '' not found in Excel. Available columns: ''
                        @ join '', '' (columns df)))
             else Inr (df, map cell_str (filter notna (column df (url_column self)))))"

subsection \<open>\<^verbatim>\<open>get_filename\<close>\<close>

text \<open>\<^verbatim>\<open>os.path.basename\<close>: what follows the last slash.\<close>

definition basename :: "string \<Rightarrow> string" where
  "basename p = rev (takeWhile (\<lambda>c. c \<noteq> CHR ''/'') (rev p))"

text \<open>
  The second component of \<^verbatim>\<open>os.path.splitext\<close>: from the last dot of the last
  path component on, provided a character other than a dot precedes it there.
\<close>

definition splitext_ext :: "string \<Rightarrow> string" where
  "splitext_ext p =
     (let name = basename p;
          ext = rev (takeWhile (\<lambda>c. c \<noteq> CHR ''.'') (rev name));
          front = take (length name - length ext - 1) name
      in if CHR ''.'' \<in> set name \<and> list_ex (\<lambda>c. c \<noteq> CHR ''.'') front
         then CHR ''.'' # ext else [])"

text \<open>\<^verbatim>\<open>str(n)\<close> for a natural number.\<close>

fun str_nat :: "nat \<Rightarrow> string" where
  "str_nat n =
     (if n < 10 then [char_of (48 + n)]
      else str_nat (n div 10) @ [char_of (48 + n mod 10)])"

declare str_nat.simps [simp del]

definition safe_chars :: string where
  "safe_chars = ''abcdefghijklmnopqrstuvwxyzABCDEFGHIJKLMNOPQRSTUVWXYZ0123456789-_.''"

text \<open>
  The loop over \<^verbatim>\<open>['id', 'name', 'title', 'product_id']\<close>: the cell of the first
  of these columns that the row has and that is not empty.
\<close>

fun first_named :: "row \<Rightarrow> string list \<Rightarrow> cell option" where
  "first_named r [] = None"
| "first_named r (c # cs) =
     (case map_of r c of
        Some v \<Rightarrow> if notna v then Some v else first_named r cs
      | None \<Rightarrow> first_named r cs)"

definition get_filename :: "downloader \<Rightarrow> string \<Rightarrow> nat \<Rightarrow> row option \<Rightarrow> string" where
  "get_filename self u i df_row =
     (case urlparse_path self u of
        None \<Rightarrow> ''image_'' @ str_nat i @ ''.jpg''
      | Some path \<Rightarrow>
          let f0 = basename path;
              f1 = (if f0 = [] \<or> CHR ''.'' \<notin> set f0 then ''image_'' @ str_nat i else f0);
              f2 = (if CHR ''.'' \<notin> set f1 then f1 @ ''.jpg'' else f1);
              f3 = takeWhile (\<lambda>c. c \<noteq> CHR ''?'') f2;
              f4 = (case df_row of
                      None \<Rightarrow> f3
                    | Some r \<Rightarrow>
                        (case first_named r [''id'', ''name'', ''title'', ''product_id''] of
                           None \<Rightarrow> f3
                         | Some v \<Rightarrow>
                             let safe_name =
                                   map (\<lambda>c. if c = CHR ''/'' \<or> c = CHR 0x5C then CHR ''_'' else c)
                                     (cell_str v);
                                 ext = (if splitext_ext f3 = [] then ''.jpg'' else splitext_ext f3)
                             in safe_name @ ext))
          in filter (\<lambda>c. c \<in> set safe_chars) f4)"

subsection \<open>\<^verbatim>\<open>download_all_images\<close>\<close>

text \<open>A task is the triple \<^verbatim>\<open>(url, filename, i)\<close>.\<close>

type_synonym task = "string \<times> string \<times> nat"

text \<open>
  The row handed to \<^verbatim>\<open>get_filename\<close>: the first row whose URL cell equals the
  URL, if the table is given and has one.
\<close>

definition find_row :: "downloader \<Rightarrow> dataframe option \<Rightarrow> string \<Rightarrow> row option" where
  "find_row self df u =
     (case df of
        None \<Rightarrow> None
      | Some d \<Rightarrow>
          (case filter (\<lambda>r. map_of r (url_column self) = Some (Str u)) (rows d) of
             [] \<Rightarrow> None
           | r # _ \<Rightarrow> Some r))"

definition prepare_tasks :: "downloader \<Rightarrow> dataframe option \<Rightarrow> string list \<Rightarrow> task list" where
  "prepare_tasks self df urls =
     map (\<lambda>(i, u). (u, get_filename self u i (find_row self df u), i))
       (enumerate 0 urls)"

text \<open>
  The thread pool runs every submitted task once and \<^verbatim>\<open>as_completed\<close> yields
  every future once, in the order of completion. That order is not fixed by the
  program: it is a parameter, a list of choices, each choice picking one of the tasks
  still pending. A task runs as one step on the shared file system.
\<close>

fun remove_nth :: "nat \<Rightarrow> 'a list \<Rightarrow> 'a list" where
  "remove_nth k [] = []"
| "remove_nth 0 (x # xs) = xs"
| "remove_nth (Suc k) (x # xs) = x # remove_nth k xs"

lemma length_remove_nth [simp]:
  "k < length xs \<Longrightarrow> length (remove_nth k xs) = length xs - 1"
  by (induction k xs rule: remove_nth.induct) auto

function completion_order :: "nat list \<Rightarrow> 'a list \<Rightarrow> 'a list" where
  "completion_order cs [] = []"
| "completion_order [] (x # xs) = x # xs"
| "completion_order (c # cs) (x # xs) =
     (x # xs) ! (c mod length (x # xs))
       # completion_order cs (remove_nth (c mod length (x # xs)) (x # xs))"
  by pat_completeness auto
termination
  by (relation "measure (\<lambda>(cs, xs). length xs)") auto

fun run_tasks :: "downloader \<Rightarrow> world \<Rightarrow> task list \<Rightarrow> outcome list \<times> world" where
  "run_tasks self w [] = ([], w)"
| "run_tasks self w ((u, fn, i) # ts) =
     (let (r, w1) = download_image self w u fn i;
          (rs, w2) = run_tasks self w1 ts
      in (r # rs, w2))"

text \<open>The loop over the completed futures, with its two accumulators.\<close>

fun collect :: "outcome list \<Rightarrow> outcome list \<Rightarrow> outcome list \<Rightarrow> outcome list \<times> outcome list" where
  "collect [] results failed_downloads = (results, failed_downloads)"
| "collect (r # rs) results failed_downloads =
     collect rs (results @ [r])
       (if status r = ''failed'' then failed_downloads @ [r] else failed_downloads)"

record summary =
  total :: nat
  successful :: nat
  failed :: nat
  skipped :: nat

definition generate_report :: "outcome list \<Rightarrow> summary" where
  "generate_report results =
     \<lparr>total = length results,
      successful = length (filter (\<lambda>r. status r = ''success'') results),
      failed = length (filter (\<lambda>r. status r = ''failed'') results),
      skipped = length (filter (\<lambda>r. status r = ''skipped'') results)\<rparr>"

text \<open>
  \<^verbatim>\<open>save_failed_downloads\<close>: the data frame built from the list of dictionaries
  has their keys as columns and one row per dictionary; it is written to
  \<^verbatim>\<open>failed_downloads.csv\<close> without the index column. The written file is kept as
  the table (header and rows of cells), not as text.
\<close>

definition csv_header :: "string list" where
  "csv_header = [''index'', ''url'', ''filename'', ''status'', ''error'']"

definition csv_row :: "outcome \<Rightarrow> string list" where
  "csv_row r =
     [str_nat (index r), url r, filename r, status r,
      (case error r of None \<Rightarrow> [] | Some m \<Rightarrow> m)]"

definition save_failed_downloads :: "downloader \<Rightarrow> world \<Rightarrow> outcome list \<Rightarrow> string + world" where
  "save_failed_downloads self w failed_downloads =
     (case open_wb self ''failed_downloads.csv'' of
        Some m \<Rightarrow> Inl m
      | None \<Rightarrow>
          Inr (w\<lparr>files := (files w)(''failed_downloads.csv'' \<mapsto>
                       Table csv_header (map csv_row failed_downloads)),
                 trace := trace w @ [WriteCsv ''failed_downloads.csv'']\<rparr>))"

text \<open>
  What a call of \<^verbatim>\<open>download_all_images\<close> leaves: the two lists, the summary
  that \<^verbatim>\<open>generate_report\<close> logs, the state of the file system, and the message
  of the exception raised by writing the retry list, if it raises (then the call does
  not return \<open>results\<close>; otherwise it does).
\<close>

record run =
  results :: "outcome list"
  failed_downloads :: "outcome list"
  report :: summary
  raised :: "string option"
  final :: world

definition download_all_images ::
  "downloader \<Rightarrow> nat list \<Rightarrow> world \<Rightarrow> dataframe option \<Rightarrow> string list \<Rightarrow> run" where
  "download_all_images self sched w df urls =
     (let tasks = prepare_tasks self df urls;
          (completed, w1) = run_tasks self w (completion_order sched tasks);
          (res, fd) = collect completed [] [];
          rep = generate_report res
      in if fd \<noteq> []
         then (case save_failed_downloads self w1 fd of
                 Inl m \<Rightarrow> \<lparr>results = res, failed_downloads = fd, report = rep,
                            raised = Some m, final = w1\<rparr>
               | Inr w2 \<Rightarrow> \<lparr>results = res, failed_downloads = fd, report = rep,
                             raised = None, final = w2\<rparr>)
         else \<lparr>results = res, failed_downloads = fd, report = rep,
                raised = None, final = w1\<rparr>)"

text \<open>
  The retry of \<^verbatim>\<open>main\<close>, after the user answers \<^verbatim>\<open>y\<close>: the failed records
  of the returned list, each downloaded again, in the list's order.
\<close>

definition retry_items :: "outcome list \<Rightarrow> task list" where
  "retry_items res =
     map (\<lambda>r. (url r, filename r, index r)) (filter (\<lambda>r. status r = ''failed'') res)"

subsection \<open>The converter\<close>

definition supported_formats :: "(string \<times> string) list" where
  "supported_formats =
     [(''png'', ''PNG''), (''jpg'', ''JPEG''), (''jpeg'', ''JPEG''), (''jfif'', ''JPEG''),
      (''jpe'', ''JPEG''), (''bmp'', ''BMP''), (''webp'', ''WEBP''), (''tiff'', ''TIFF''),
      (''tif'', ''TIFF''), (''gif'', ''GIF''), (''ico'', ''ICO''), (''ppm'', ''PPM''),
      (''pgm'', ''PGM'')]"

definition format_mapping :: "(string \<times> string) list" where
  "format_mapping =
     [(''png'', ''PNG''), (''jpg'', ''JPEG''), (''jpeg'', ''JPEG''), (''jfif'', ''JPEG''),
      (''jpe'', ''JPEG''), (''bmp'', ''BMP''), (''webp'', ''WEBP''), (''tiff'', ''TIFF''),
      (''tif'', ''TIFF''), (''gif'', ''GIF''), (''ico'', ''ICO'')]"

definition get_supported_extensions :: "string list" where
  "get_supported_extensions = map fst supported_formats"

text \<open>
  \<^verbatim>\<open>str.lower\<close> and \<^verbatim>\<open>str.upper\<close>, on ASCII: a letter goes to its
  counterpart, every other character stays.
\<close>

definition lower_char :: "char \<Rightarrow> char" where
  "lower_char c =
     (case map_of (zip ''ABCDEFGHIJKLMNOPQRSTUVWXYZ'' ''abcdefghijklmnopqrstuvwxyz'') c of
        Some d \<Rightarrow> d
      | None \<Rightarrow> c)"

definition upper_char :: "char \<Rightarrow> char" where
  "upper_char c =
     (case map_of (zip ''abcdefghijklmnopqrstuvwxyz'' ''ABCDEFGHIJKLMNOPQRSTUVWXYZ'') c of
        Some d \<Rightarrow> d
      | None \<Rightarrow> c)"

definition lower :: "string \<Rightarrow> string" where
  "lower s = map lower_char s"

definition upper :: "string \<Rightarrow> string" where
  "upper s = map upper_char s"

definition get_pillow_format :: "string \<Rightarrow> string" where
  "get_pillow_format format_name =
     (case map_of format_mapping (lower format_name) of
        Some f \<Rightarrow> f
      | None \<Rightarrow> upper (lower format_name))"

definition get_output_extension :: "string \<Rightarrow> string" where
  "get_output_extension format_name =
     (if lower format_name \<in> set [''jpg'', ''jpeg'', ''jfif'', ''jpe''] then ''jpg''
      else if lower format_name \<in> set [''tif'', ''tiff''] then ''tiff''
      else lower format_name)"

text \<open>
  The imaging library, from \<^verbatim>\<open>Image.open\<close> to \<^verbatim>\<open>img.save\<close>: given the
  files, the input path and the Pillow format, either the bytes saved at the output
  path, or the message of the exception raised together with what the failed call has
  left at the output path (\<open>None\<close>: it has not touched it). \<open>glob folder pattern\<close>
  is \<^verbatim>\<open>Path(folder).glob(pattern)\<close>, the paths as strings.
\<close>

datatype save_result = Saved string | CodecError string "string option"

record converter =
  glob :: "string \<Rightarrow> string \<Rightarrow> string list"
  codec :: "(string \<rightharpoonup> node) \<Rightarrow> string \<Rightarrow> string \<Rightarrow> save_result"

definition convert_image ::
  "converter \<Rightarrow> world \<Rightarrow> string \<Rightarrow> string \<Rightarrow> string \<Rightarrow> bool \<times> world" where
  "convert_image self w input_path output_path output_format =
     (let pillow_format = get_pillow_format output_format;
          w1 = w\<lparr>trace := trace w @ [CodecCall input_path output_path]\<rparr>
      in case codec self (files w) input_path pillow_format of
           Saved bytes \<Rightarrow> (True, w1\<lparr>files := (files w1)(output_path \<mapsto> File bytes)\<rparr>)
         | CodecError m left \<Rightarrow>
             (False, case left of
                       None \<Rightarrow> w1
                     | Some bytes \<Rightarrow> w1\<lparr>files := (files w1)(output_path \<mapsto> File bytes)\<rparr>))"

text \<open>
  \<^verbatim>\<open>PurePath.stem\<close>: the last component without its suffix; the suffix starts at
  the last dot when that dot is neither the first nor the last character.
\<close>

definition stem :: "string \<Rightarrow> string" where
  "stem p =
     (let name = basename p;
          ext = rev (takeWhile (\<lambda>c. c \<noteq> CHR ''.'') (rev name));
          i = length name - length ext - 1
      in if CHR ''.'' \<in> set name \<and> 0 < i \<and> ext \<noteq> [] then take i name else name)"

record tally =
  converted_count :: nat
  skipped_count :: nat
  failed_count :: nat

text \<open>The body of the loop of \<^verbatim>\<open>bulk_convert\<close> over \<^verbatim>\<open>image_files\<close>.\<close>

fun convert_loop ::
  "converter \<Rightarrow> string \<Rightarrow> string \<Rightarrow> bool \<Rightarrow> string list \<Rightarrow> tally \<Rightarrow> world \<Rightarrow> tally \<times> world"
where
  "convert_loop self output_folder output_format overwrite [] t w = (t, w)"
| "convert_loop self output_folder output_format overwrite (input_path # rest) t w =
     (let output_extension = get_output_extension output_format;
          output_filename = stem input_path @ ''.'' @ output_extension;
          output_path = path_join output_folder output_filename
      in if path_exists w output_path \<and> \<not> overwrite
         then convert_loop self output_folder output_format overwrite rest
                (t\<lparr>skipped_count := skipped_count t + 1\<rparr>) w
         else
           let (success, w1) = convert_image self w input_path output_path output_format
           in if success
              then convert_loop self output_folder output_format overwrite rest
                     (t\<lparr>converted_count := converted_count t + 1\<rparr>) w1
              else convert_loop self output_folder output_format overwrite rest
                     (t\<lparr>failed_count := failed_count t + 1\<rparr>) w1)"

text \<open>
  The list \<^verbatim>\<open>image_files\<close>: for each supported extension, in the order of the
  table, the matches of the pattern and then those of the pattern in upper case.
\<close>

definition image_files :: "converter \<Rightarrow> string \<Rightarrow> bool \<Rightarrow> string list" where
  "image_files self input_folder recursive =
     (let pattern = (if recursive then ''**/*'' else ''*'')
      in concat (map (\<lambda>ext.
           glob self input_folder (pattern @ ''.'' @ ext)
             @ glob self input_folder (upper (pattern @ ''.'' @ ext)))
           get_supported_extensions))"

text \<open>
  \<^verbatim>\<open>Path(output_folder).mkdir(parents=True, exist_ok=True)\<close> on the flat file
  system of the model: it raises when the path is there and is not a directory.
\<close>

definition mkdir_p :: "world \<Rightarrow> string \<Rightarrow> world option" where
  "mkdir_p w p =
     (case files w p of
        None \<Rightarrow> Some (w\<lparr>files := (files w)(p \<mapsto> Dir)\<rparr>)
      | Some Dir \<Rightarrow> Some w
      | Some _ \<Rightarrow> None)"

datatype bulk_result = Unsupported | FileExistsError | NoImages | Done tally

definition bulk_convert ::
  "converter \<Rightarrow> world \<Rightarrow> string \<Rightarrow> string \<Rightarrow> string \<Rightarrow> bool \<Rightarrow> bool \<Rightarrow> bulk_result \<times> world"
where
  "bulk_convert self w input_folder output_folder output_format recursive overwrite =
     (if lower output_format \<notin> set (map fst supported_formats) then (Unsupported, w)
      else
        case mkdir_p w output_folder of
          None \<Rightarrow> (FileExistsError, w)
        | Some w1 \<Rightarrow>
            if image_files self input_folder recursive = [] then (NoImages, w1)
            else
              let (t, w2) =
                    convert_loop self output_folder output_format overwrite
                      (image_files self input_folder recursive)
                      \<lparr>converted_count = 0, skipped_count = 0, failed_count = 0\<rparr> w1
              in (Done t, w2))"

subsection \<open>Notions used in the statements\<close>

text \<open>The path a task writes to.\<close>

definition target :: "downloader \<Rightarrow> task \<Rightarrow> string" where
  "target self t = path_join (output_dir self) (fst (snd t))"

text \<open>
  A task whose download, when attempted, gets as far as opening its target: the
  request returns a response of an image type and the file opens.
\<close>

definition reaches_open :: "downloader \<Rightarrow> task \<Rightarrow> bool" where
  "reaches_open self t =
     (case http_get self (fst t) of
        Response content_type chunks stream_error \<Rightarrow>
          sublist ''image'' content_type \<and> open_wb self (target self t) = None
      | _ \<Rightarrow> False)"

definition triple :: "outcome \<Rightarrow> task" where
  "triple r = (url r, filename r, index r)"

subsection \<open>A concrete environment\<close>

text \<open>
  A small network, table and directory on which the statements are evaluated.
  \<open>example_path\<close> stands for \<^verbatim>\<open>urlparse(u).path\<close> on URLs of the shape
  \<^verbatim>\<open>http://host/path\<close> without parameters, query or fragment, which is all it is
  applied to below.
\<close>

definition example_get :: "string \<Rightarrow> response" where
  "example_get u =
     (if u = ''http://h/a.png'' then Response ''image/png'' [''ab'', ''cd''] None
      else if u = ''http://h/b.png'' then Response ''image/png'' [''ab''] (Some ''Connection broken'')
      else if u = ''http://h/e.png'' then Response ''image/png'' [] None
      else if u = ''http://h/m.png'' then RaisesOther []
      else if u = ''http://h/t.html'' then Response ''text/html'' [''<html>''] None
      else RaisesRequest ''404 Client Error'')"

definition example_path :: "string \<Rightarrow> string option" where
  "example_path u = Some (dropWhile (\<lambda>c. c \<noteq> CHR ''/'') (drop 7 u))"

definition example_df :: dataframe where
  "example_df =
     \<lparr>columns = [''url''],
      rows = [[(''url'', Str ''http://h/a.png'')], [(''url'', NaN)],
              [(''url'', Str ''http://h/b.png'')], [(''url'', Str ''http://h/c.png'')]]\<rparr>"

definition example :: downloader where
  "example =
     \<lparr>excel_path = ''links.xlsx'', url_column = ''url'', output_dir = ''out'',
      http_get = example_get, open_wb = (\<lambda>p. None), urlparse_path = example_path,
      read_excel = (\<lambda>p engine. Inr example_df)\<rparr>"

definition example_world :: world where
  "example_world = \<lparr>files = [''out'' \<mapsto> Dir], trace = []\<rparr>"

definition example_glob :: "string \<Rightarrow> string \<Rightarrow> string list" where
  "example_glob folder pattern =
     (if pattern = ''*.png'' then [''in/b.png'']
      else if pattern = ''*.jpg'' then [''in/a.jpg'', ''in/c.jpg'']
      else [])"

definition example_codec :: "(string \<rightharpoonup> node) \<Rightarrow> string \<Rightarrow> string \<Rightarrow> save_result" where
  "example_codec fs input_path pillow_format =
     (if input_path = ''in/c.jpg'' then CodecError ''cannot identify image file'' None
      else Saved (pillow_format @ '':'' @ input_path))"

definition example_converter :: converter where
  "example_converter = \<lparr>glob = example_glob, codec = example_codec\<rparr>"

section \<open>Properties\<close>

text \<open>
  C10. For every URL, file name and index, in every state of the file system and for
  every behaviour of the network, \<^verbatim>\<open>download_image\<close> returns a record (the model
  is a total function in which every exception path of the source ends in a record);
  the record repeats the three arguments, its status is one of \<^verbatim>\<open>'success'\<close>,
  \<^verbatim>\<open>'failed'\<close>, \<^verbatim>\<open>'skipped'\<close>, and its error is a string exactly when the
  status is \<^verbatim>\<open>'failed'\<close>, \<^verbatim>\<open>None\<close> otherwise.
\<close>

theorem download_image_well_formed:
  "index (fst (download_image self w u fn i)) = i \<and>
   url (fst (download_image self w u fn i)) = u \<and>
   filename (fst (download_image self w u fn i)) = fn \<and>
   status (fst (download_image self w u fn i)) \<in> {''success'', ''failed'', ''skipped''} \<and>
   (error (fst (download_image self w u fn i)) \<noteq> None
      \<longleftrightarrow> status (fst (download_image self w u fn i)) = ''failed'')"
  by (simp add: download_image_def mk_outcome_def Let_def
        split: response.split option.split)

subsection \<open>Auxiliary facts\<close>

lemma mset_remove_nth:
  "k < length xs \<Longrightarrow> add_mset (xs ! k) (mset (remove_nth k xs)) = mset xs"
  by (induction k xs rule: remove_nth.induct) auto

lemma mset_completion_order: "mset (completion_order cs xs) = mset xs"
proof (induction cs xs rule: completion_order.induct)
  case (3 c cs x xs)
  have "c mod length (x # xs) < length (x # xs)" by simp
  from mset_remove_nth [OF this] 3 show ?case by simp
qed simp_all

lemma download_image_fields:
  "triple (fst (download_image self w u fn i)) = (u, fn, i)"
  by (simp add: download_image_def mk_outcome_def Let_def triple_def
        split: response.split option.split)

lemma run_tasks_Cons:
  "run_tasks self w ((u, fn, i) # ts) =
     (fst (download_image self w u fn i)
        # fst (run_tasks self (snd (download_image self w u fn i)) ts),
      snd (run_tasks self (snd (download_image self w u fn i)) ts))"
  by (simp add: case_prod_unfold Let_def)

lemma run_tasks_triples: "map triple (fst (run_tasks self w ts)) = ts"
proof (induction ts arbitrary: w)
  case (Cons t ts)
  obtain u fn i where t: "t = (u, fn, i)" by (cases t)
  show ?case
    unfolding t run_tasks_Cons using Cons.IH download_image_fields by simp
qed simp

lemma collect_eq:
  "collect rs a b = (a @ rs, b @ filter (\<lambda>r. status r = ''failed'') rs)"
  by (induction rs arbitrary: a b) auto

lemma indices_prepare_tasks:
  "map (\<lambda>t. snd (snd t)) (prepare_tasks self df urls) = [0..<length urls]"
  by (simp add: prepare_tasks_def comp_def case_prod_unfold enumerate_eq_zip)

lemma urls_prepare_tasks: "map fst (prepare_tasks self df urls) = urls"
  by (simp add: prepare_tasks_def comp_def case_prod_unfold enumerate_eq_zip)

lemma length_prepare_tasks [simp]: "length (prepare_tasks self df urls) = length urls"
  by (simp add: prepare_tasks_def)

lemma results_download_all_images:
  "results (download_all_images self sched w df urls) =
     fst (run_tasks self w (completion_order sched (prepare_tasks self df urls)))"
  by (simp add: download_all_images_def Let_def collect_eq split: prod.split sum.split)

lemma report_download_all_images:
  "report (download_all_images self sched w df urls) =
     generate_report (results (download_all_images self sched w df urls))"
  by (simp add: download_all_images_def Let_def collect_eq split: prod.split sum.split)

lemma triples_results:
  "map triple (results (download_all_images self sched w df urls)) =
     completion_order sched (prepare_tasks self df urls)"
  by (simp add: results_download_all_images run_tasks_triples)

lemma length_results:
  "length (results (download_all_images self sched w df urls)) = length urls"
proof -
  have "length (map triple (results (download_all_images self sched w df urls))) =
      size (mset (completion_order sched (prepare_tasks self df urls)))"
    by (simp only: triples_results size_mset)
  then show ?thesis by (simp add: mset_completion_order)
qed

lemma mset_indices_results:
  "mset (map index (results (download_all_images self sched w df urls))) =
     mset [0..<length urls]"
proof -
  have "map index (results (download_all_images self sched w df urls)) =
      map (\<lambda>t. snd (snd t)) (map triple (results (download_all_images self sched w df urls)))"
    by (simp add: triple_def comp_def)
  then have "mset (map index (results (download_all_images self sched w df urls))) =
      image_mset (\<lambda>t. snd (snd t)) (mset (completion_order sched (prepare_tasks self df urls)))"
    by (simp only: triples_results mset_map)
  also have "\<dots> = mset (map (\<lambda>t. snd (snd t)) (prepare_tasks self df urls))"
    by (simp only: mset_completion_order mset_map)
  finally show ?thesis by (simp only: indices_prepare_tasks)
qed

lemma final_download_all_images:
  "final (download_all_images self sched w df urls) =
     (let w1 = snd (run_tasks self w (completion_order sched (prepare_tasks self df urls)));
          fd = filter (\<lambda>r. status r = ''failed'')
                 (fst (run_tasks self w (completion_order sched (prepare_tasks self df urls))))
      in if fd \<noteq> []
         then (case save_failed_downloads self w1 fd of Inl m \<Rightarrow> w1 | Inr w2 \<Rightarrow> w2)
         else w1)"
  by (simp add: download_all_images_def Let_def collect_eq case_prod_unfold split: sum.split)

lemma raised_download_all_images:
  "raised (download_all_images self sched w df urls) =
     (let w1 = snd (run_tasks self w (completion_order sched (prepare_tasks self df urls)));
          fd = filter (\<lambda>r. status r = ''failed'')
                 (fst (run_tasks self w (completion_order sched (prepare_tasks self df urls))))
      in if fd \<noteq> []
         then (case save_failed_downloads self w1 fd of Inl m \<Rightarrow> Some m | Inr w2 \<Rightarrow> None)
         else None)"
  by (simp add: download_all_images_def Let_def collect_eq case_prod_unfold split: sum.split)

lemma failed_downloads_download_all_images:
  "failed_downloads (download_all_images self sched w df urls) =
     filter (\<lambda>r. status r = ''failed'') (results (download_all_images self sched w df urls))"
  by (simp add: download_all_images_def Let_def collect_eq case_prod_unfold split: sum.split)

subsection \<open>Every work item has its outcome\<close>

text \<open>
  C1. For every table, list of URLs, state of the file system, behaviour of the network
  and order of completion, \<^verbatim>\<open>download_all_images\<close> collects exactly one record
  per task: the records are as many as the URLs, their (url, filename, index) triples
  are the tasks, each once, their indices are \<open>0, \<dots>, n - 1\<close>, each once, and the
  summary's total is the number of URLs. This holds whatever the downloads do, failed
  ones included.
\<close>

theorem one_outcome_per_work_item:
  "length (results (download_all_images self sched w df urls)) = length urls \<and>
   mset (map triple (results (download_all_images self sched w df urls))) =
     mset (prepare_tasks self df urls) \<and>
   mset (map index (results (download_all_images self sched w df urls))) =
     mset [0..<length urls] \<and>
   summary.total (report (download_all_images self sched w df urls)) = length urls"
proof (intro conjI)
  show "length (results (download_all_images self sched w df urls)) = length urls"
    by (rule length_results)
  show "mset (map triple (results (download_all_images self sched w df urls))) =
      mset (prepare_tasks self df urls)"
    by (simp only: triples_results mset_completion_order)
  show "mset (map index (results (download_all_images self sched w df urls))) =
      mset [0..<length urls]"
    by (rule mset_indices_results)
  show "summary.total (report (download_all_images self sched w df urls)) = length urls"
    by (simp add: report_download_all_images generate_report_def length_results)
qed

theorem one_outcome_per_work_item_witness:
  "length (results (download_all_images example [2, 0] example_world (Some example_df)
      [''http://h/a.png'', ''http://h/b.png'', ''http://h/c.png''])) = 3 \<and>
   map index (results (download_all_images example [2, 0] example_world (Some example_df)
      [''http://h/a.png'', ''http://h/b.png'', ''http://h/c.png''])) = [2, 0, 1]"
proof -
  have "map index (results (download_all_images example [2, 0] example_world (Some example_df)
      [''http://h/a.png'', ''http://h/b.png'', ''http://h/c.png''])) = [2, 0, 1]"
    by code_simp
  then show ?thesis
    using one_outcome_per_work_item [of example "[2, 0]" example_world "Some example_df"
      "[''http://h/a.png'', ''http://h/b.png'', ''http://h/c.png'']"]
    by simp
qed

subsection \<open>Existing targets are skipped\<close>



subsection \<open>Counting the records\<close>






subsection \<open>Failures stay with their item\<close>





subsection \<open>What is recorded as a success\<close>




subsection \<open>What an invocation writes\<close>





subsection \<open>The order of the work items\<close>

text \<open>
  C9, as the code has it. The claim has the files of a directory sorted by path.
  \<^verbatim>\<open>bulk_convert\<close> does not sort: it appends the matches extension by extension.
  In a folder with \<^verbatim>\<open>b.png\<close>, \<^verbatim>\<open>a.jpg\<close> and \<^verbatim>\<open>c.jpg\<close> the list starts
  with \<^verbatim>\<open>b.png\<close>, because \<^verbatim>\<open>png\<close> is the first extension of the table.
\<close>

theorem directory_order_counterexample:
  "image_files example_converter ''in'' False = [''in/b.png'', ''in/a.jpg'', ''in/c.jpg''] \<and>
   \<not> sorted (image_files example_converter ''in'' False)"
proof -
  have "image_files example_converter ''in'' False = [''in/b.png'', ''in/a.jpg'', ''in/c.jpg'']"
    by code_simp
  moreover have "\<not> sorted [''in/b.png'', ''in/a.jpg'', ''in/c.jpg'']"
    by simp
  ultimately show ?thesis by simp
qed

text \<open>
  C9, amended. The files of a directory come grouped by extension, in the order of
  the table of supported formats (png, jpg, jpeg, jfif, jpe, bmp, webp, tiff, tif, gif,
  ico, ppm, pgm): for each extension the matches of the pattern, then the matches of
  the pattern with the extension in upper case, each group in the order in which
  \<^verbatim>\<open>glob\<close> yields it. The items of a table are in row order: the URLs are the
  non-empty cells of the URL column from top to bottom, and the tasks are these URLs
  in the same order, numbered from 0.
\<close>

theorem items_in_source_order:
  "image_files conv folder False =
     concat (map (\<lambda>e. glob conv folder (''*.'' @ e) @ glob conv folder (''*.'' @ upper e))
       [''png'', ''jpg'', ''jpeg'', ''jfif'', ''jpe'', ''bmp'', ''webp'', ''tiff'', ''tif'',
        ''gif'', ''ico'', ''ppm'', ''pgm'']) \<and>
   image_files conv folder True =
     concat (map (\<lambda>e. glob conv folder (''**/*.'' @ e) @ glob conv folder (''**/*.'' @ upper e))
       [''png'', ''jpg'', ''jpeg'', ''jfif'', ''jpe'', ''bmp'', ''webp'', ''tiff'', ''tif'',
        ''gif'', ''ico'', ''ppm'', ''pgm'']) \<and>
   (load_excel_data self = Inr (df, urls) \<longrightarrow>
      urls = map cell_str (filter notna (column df (url_column self)))) \<and>
   map fst (prepare_tasks self d urls) = urls \<and>
   map (\<lambda>t. snd (snd t)) (prepare_tasks self d urls) = [0..<length urls]"
proof (intro conjI impI)
  have up: "upper (p @ ''.'' @ e) = upper p @ ''.'' @ upper e" for p e
    by (simp add: upper_def upper_char_def)
  have star: "upper ''*'' = ''*''" "upper ''**/*'' = ''**/*''"
    by (simp_all add: upper_def upper_char_def)
  show "image_files conv folder False =
     concat (map (\<lambda>e. glob conv folder (''*.'' @ e) @ glob conv folder (''*.'' @ upper e))
       [''png'', ''jpg'', ''jpeg'', ''jfif'', ''jpe'', ''bmp'', ''webp'', ''tiff'', ''tif'',
        ''gif'', ''ico'', ''ppm'', ''pgm''])"
    unfolding image_files_def get_supported_extensions_def supported_formats_def Let_def up
    by (simp add: star)
  show "image_files conv folder True =
     concat (map (\<lambda>e. glob conv folder (''**/*.'' @ e) @ glob conv folder (''**/*.'' @ upper e))
       [''png'', ''jpg'', ''jpeg'', ''jfif'', ''jpe'', ''bmp'', ''webp'', ''tiff'', ''tif'',
        ''gif'', ''ico'', ''ppm'', ''pgm''])"
    unfolding image_files_def get_supported_extensions_def supported_formats_def Let_def up
    by (simp add: star)
next
  assume "load_excel_data self = Inr (df, urls)"
  then show "urls = map cell_str (filter notna (column df (url_column self)))"
    by (auto simp add: load_excel_data_def Let_def split: if_splits sum.splits)
next
  show "map fst (prepare_tasks self d urls) = urls"
    by (rule urls_prepare_tasks)
  show "map (\<lambda>t. snd (snd t)) (prepare_tasks self d urls) = [0..<length urls]"
    by (rule indices_prepare_tasks)
qed

theorem items_in_source_order_witness:
  "load_excel_data example =
     Inr (example_df, [''http://h/a.png'', ''http://h/b.png'', ''http://h/c.png'']) \<and>
   [''http://h/a.png'', ''http://h/b.png'', ''http://h/c.png''] =
     map cell_str (filter notna (column example_df (url_column example))) \<and>
   map fst (prepare_tasks example (Some example_df)
     [''http://h/a.png'', ''http://h/b.png'', ''http://h/c.png'']) =
     [''http://h/a.png'', ''http://h/b.png'', ''http://h/c.png'']"
proof -
  have l: "load_excel_data example =
     Inr (example_df, [''http://h/a.png'', ''http://h/b.png'', ''http://h/c.png''])"
    by code_simp
  show ?thesis
    using items_in_source_order [where self = example and df = example_df
        and urls = "[''http://h/a.png'', ''http://h/b.png'', ''http://h/c.png'']"
        and d = "Some example_df"] l
    by blast
qed

subsection \<open>Tasks with the same target\<close>

text \<open>
  C7, as the code has it. The claim has a configuration error raised before dispatch
  when two tasks have the same target. \<^verbatim>\<open>download_all_images\<close> compares no file
  names: two URLs with the same last path component get the same file name, both
  tasks are run, nothing is raised, and the one that runs second finds the file of the
  first and is skipped.
\<close>

theorem duplicate_targets_counterexample:
  "prepare_tasks example (Some example_df) [''http://h/a.png'', ''http://g/a.png''] =
     [(''http://h/a.png'', ''a.png'', 0), (''http://g/a.png'', ''a.png'', 1)] \<and>
   raised (download_all_images example [] example_world (Some example_df)
     [''http://h/a.png'', ''http://g/a.png'']) = None \<and>
   map status (results (download_all_images example [] example_world (Some example_df)
     [''http://h/a.png'', ''http://g/a.png''])) = [''success'', ''skipped'']"
  by code_simp

text \<open>
  C7, amended. No check of the targets precedes dispatch and no error is raised for
  equal ones: for every list of URLs all tasks are run, each once, whether or not file
  names repeat. What is pairwise distinct is the tasks' indices. File names do repeat:
  when the path of a URL ends in a component with a dot, \<^verbatim>\<open>get_filename\<close> does not
  use the index, so the same URL and row give the same name at any two positions.
\<close>

theorem duplicate_targets_dispatched:
  "distinct (map (\<lambda>t. snd (snd t)) (prepare_tasks self df urls)) \<and>
   mset (map triple (results (download_all_images self sched w df urls))) =
     mset (prepare_tasks self df urls) \<and>
   (urlparse_path self u = Some p \<and> CHR ''.'' \<in> set (basename p) \<longrightarrow>
      get_filename self u i r = get_filename self u j r)"
proof (intro conjI impI)
  show "distinct (map (\<lambda>t. snd (snd t)) (prepare_tasks self df urls))"
    by (simp only: indices_prepare_tasks distinct_upt)
  show "mset (map triple (results (download_all_images self sched w df urls))) =
     mset (prepare_tasks self df urls)"
    by (simp only: triples_results mset_completion_order)
next
  assume "urlparse_path self u = Some p \<and> CHR ''.'' \<in> set (basename p)"
  then have "urlparse_path self u = Some p" and "basename p \<noteq> []"
    and "CHR ''.'' \<in> set (basename p)"
    by auto
  then show "get_filename self u i r = get_filename self u j r"
    by (simp add: get_filename_def)
qed

theorem duplicate_targets_dispatched_witness:
  "urlparse_path example ''http://h/a.png'' = Some ''/a.png'' \<and>
   CHR ''.'' \<in> set (basename ''/a.png'') \<and>
   get_filename example ''http://h/a.png'' 0 None = get_filename example ''http://h/a.png'' 5 None \<and>
   get_filename example ''http://h/a.png'' 5 None = ''a.png''"
proof -
  have p: "urlparse_path example ''http://h/a.png'' = Some ''/a.png''"
    by code_simp
  have d: "CHR ''.'' \<in> set (basename ''/a.png'')"
    by code_simp
  have f: "get_filename example ''http://h/a.png'' 5 None = ''a.png''"
    by code_simp
  show ?thesis
    using duplicate_targets_dispatched [where self = example and u = "''http://h/a.png''"
        and p = "''/a.png''" and i = 0 and j = 5 and r = None] p d f
    by blast
qed

subsection \<open>The retry list\<close>

text \<open>
  C6, as the code has it. The claim has the retry list readable back as an input
  source. \<^verbatim>\<open>load_excel_data\<close> accepts only paths ending in \<^verbatim>\<open>.xlsx\<close> or
  \<^verbatim>\<open>.xls\<close>: given \<^verbatim>\<open>failed_downloads.csv\<close> it raises \<^verbatim>\<open>ValueError\<close>.
\<close>

theorem retry_list_unreadable_counterexample:
  "load_excel_data (example\<lparr>excel_path := ''failed_downloads.csv''\<rparr>) =
     Inl (ValueError ''Unsupported file format. Use .xlsx or .xls'')"
  by code_simp


text \<open>
  C6, amended. The list of failed records is exactly the failed records among the
  results, in the order of completion. When there is at least one and the write does
  not raise, \<^verbatim>\<open>failed_downloads.csv\<close> holds a table with the columns index, url,
  filename, status, error and one row per failed record, no more and no fewer. The
  file is not an input source of the program: \<^verbatim>\<open>load_excel_data\<close> raises
  \<^verbatim>\<open>ValueError\<close> for every path that ends neither in \<^verbatim>\<open>.xlsx\<close> nor in
  \<^verbatim>\<open>.xls\<close>. The retry that the program offers goes through the results in memory:
  it downloads again exactly the failed records' (url, filename, index).
\<close>

theorem retry_list_holds_failures:
  "(let r = download_all_images self sched w df urls in
      failed_downloads r = filter (\<lambda>x. status x = ''failed'') (results r) \<and>
      length (failed_downloads r) = failed (report r) \<and>
      (0 < failed (report r) \<and> raised r = None \<longrightarrow>
         files (final r) ''failed_downloads.csv'' =
           Some (Table [''index'', ''url'', ''filename'', ''status'', ''error'']
                  (map csv_row (failed_downloads r)))) \<and>
      retry_items (results r) = map triple (failed_downloads r)) \<and>
   (\<not> suffix ''.xlsx'' (excel_path s) \<and> \<not> suffix ''.xls'' (excel_path s) \<longrightarrow>
      load_excel_data s = Inl (ValueError ''Unsupported file format. Use .xlsx or .xls''))"
proof -
  define r where "r = download_all_images self sched w df urls"
  have fd: "failed_downloads r = filter (\<lambda>x. status x = ''failed'') (results r)"
    unfolding r_def by (rule failed_downloads_download_all_images)
  have rep: "failed (report r) = length (filter (\<lambda>x. status x = ''failed'') (results r))"
    unfolding r_def by (simp add: report_download_all_images generate_report_def)
  have csv: "files (final r) ''failed_downloads.csv'' =
      Some (Table [''index'', ''url'', ''filename'', ''status'', ''error'']
             (map csv_row (failed_downloads r)))"
    if "0 < failed (report r)" "raised r = None"
  proof -
    from that(1) have ne: "filter (\<lambda>x. status x = ''failed'') (results r) \<noteq> []"
      unfolding rep by simp
    then have ne': "filter (\<lambda>x. status x = ''failed'')
        (fst (run_tasks self w (completion_order sched (prepare_tasks self df urls)))) \<noteq> []"
      by (simp add: r_def results_download_all_images)
    from that(2) have opens: "open_wb self ''failed_downloads.csv'' = None"
      unfolding r_def raised_download_all_images Let_def
      using ne' by (simp add: save_failed_downloads_def split: option.splits)
    show ?thesis
      unfolding fd unfolding r_def final_download_all_images results_download_all_images Let_def
      using ne' opens by (simp add: save_failed_downloads_def csv_header_def)
  qed
  have retry: "retry_items (results r) = map triple (failed_downloads r)"
    by (simp add: retry_items_def fd triple_def)
  have load: "load_excel_data s = Inl (ValueError ''Unsupported file format. Use .xlsx or .xls'')"
    if "\<not> suffix ''.xlsx'' (excel_path s) \<and> \<not> suffix ''.xls'' (excel_path s)"
    using that by (simp add: load_excel_data_def)
  show ?thesis
    using fd rep csv retry load unfolding r_def Let_def by simp
qed

theorem retry_list_holds_failures_witness:
  "(let r = download_all_images example [2, 0] example_world (Some example_df)
        [''http://h/a.png'', ''http://h/b.png'', ''http://h/c.png''] in
      0 < failed (report r) \<and> raised r = None \<and>
      files (final r) ''failed_downloads.csv'' =
        Some (Table [''index'', ''url'', ''filename'', ''status'', ''error'']
          [[''2'', ''http://h/c.png'', ''c.png'', ''failed'', ''404 Client Error''],
           [''1'', ''http://h/b.png'', ''b.png'', ''failed'', ''Connection broken'']]) \<and>
      retry_items (results r) =
        [(''http://h/c.png'', ''c.png'', 2), (''http://h/b.png'', ''b.png'', 1)]) \<and>
   \<not> suffix ''.xlsx'' ''failed_downloads.csv'' \<and> \<not> suffix ''.xls'' ''failed_downloads.csv''"
proof -
  define r where "r = download_all_images example [2, 0] example_world (Some example_df)
        [''http://h/a.png'', ''http://h/b.png'', ''http://h/c.png'']"
  have a: "0 < failed (report r)" "raised r = None"
    unfolding r_def by code_simp+
  have rows: "map csv_row (failed_downloads r) =
      [[''2'', ''http://h/c.png'', ''c.png'', ''failed'', ''404 Client Error''],
       [''1'', ''http://h/b.png'', ''b.png'', ''failed'', ''Connection broken'']]"
    unfolding r_def by code_simp
  have tr: "map triple (failed_downloads r) =
      [(''http://h/c.png'', ''c.png'', 2), (''http://h/b.png'', ''b.png'', 1)]"
    unfolding r_def by code_simp
  have sfx: "\<not> suffix ''.xlsx'' ''failed_downloads.csv'' \<and> \<not> suffix ''.xls'' ''failed_downloads.csv''"
    by code_simp
  show ?thesis
    using retry_list_holds_failures [of example "[2, 0]" example_world "Some example_df"
        "[''http://h/a.png'', ''http://h/b.png'', ''http://h/c.png'']"
        "example\<lparr>excel_path := ''failed_downloads.csv''\<rparr>"]
      a rows tr sfx
    unfolding r_def Let_def by simp
qed

subsection \<open>Running twice\<close>

lemma path_exists_files: "files w = files v \<Longrightarrow> path_exists w p = path_exists v p"
  by (simp add: path_exists_def)

lemma download_image_mono:
  "path_exists w p \<Longrightarrow> path_exists (snd (download_image self w u fn i)) p"
  by (simp add: download_image_def path_exists_def Let_def split: response.split option.split)

lemma download_image_settles:
  "path_exists (snd (download_image self w u fn i)) (target self (u, fn, i))
     \<or> \<not> reaches_open self (u, fn, i)"
  by (simp add: download_image_def path_exists_def Let_def target_def reaches_open_def
        split: response.split option.split)

lemma download_image_settled:
  assumes "path_exists w (target self (u, fn, i)) \<or> \<not> reaches_open self (u, fn, i)"
  shows "files (snd (download_image self w u fn i)) = files w"
    and "filter is_write (trace (snd (download_image self w u fn i))) = filter is_write (trace w)"
    and "status (fst (download_image self w u fn i)) =
      (if path_exists w (target self (u, fn, i)) then ''skipped'' else ''failed'')"
  using assms
  by (auto simp add: download_image_def Let_def target_def reaches_open_def mk_outcome_def
        split: response.splits option.splits)

lemma download_image_kept:
  "status (fst (download_image self w u fn i)) \<noteq> ''failed'' \<Longrightarrow>
   path_exists (snd (download_image self w u fn i)) (target self (u, fn, i))"
  by (auto simp add: download_image_def Let_def target_def mk_outcome_def path_exists_def
        split: response.splits option.splits if_splits)

lemma run_tasks_mono:
  "path_exists w p \<Longrightarrow> path_exists (snd (run_tasks self w ts)) p"
proof (induction ts arbitrary: w)
  case (Cons t ts)
  obtain u fn i where t: "t = (u, fn, i)" by (cases t)
  show ?case
    unfolding t run_tasks_Cons using Cons.IH Cons.prems download_image_mono by simp
qed simp

lemma run_tasks_settles:
  "t \<in> set ts \<Longrightarrow>
   path_exists (snd (run_tasks self w ts)) (target self t) \<or> \<not> reaches_open self t"
proof (induction ts arbitrary: w)
  case (Cons a ts)
  obtain u fn i where a: "a = (u, fn, i)" by (cases a)
  show ?case
  proof (cases "t = a")
    case True
    then show ?thesis
      unfolding a run_tasks_Cons
      using download_image_settles [of self w u fn i] run_tasks_mono by auto
  next
    case False
    with Cons.prems have "t \<in> set ts" by simp
    then show ?thesis
      unfolding a run_tasks_Cons using Cons.IH by simp
  qed
qed simp

lemma run_tasks_settled:
  assumes "\<And>t. t \<in> set ts \<Longrightarrow> path_exists w (target self t) \<or> \<not> reaches_open self t"
  shows "files (snd (run_tasks self w ts)) = files w \<and>
     filter is_write (trace (snd (run_tasks self w ts))) = filter is_write (trace w) \<and>
     map status (fst (run_tasks self w ts)) =
       map (\<lambda>t. if path_exists w (target self t) then ''skipped'' else ''failed'') ts"
  using assms
proof (induction ts arbitrary: w)
  case (Cons a ts)
  obtain u fn i where a: "a = (u, fn, i)" by (cases a)
  let ?w1 = "snd (download_image self w u fn i)"
  have head: "path_exists w (target self (u, fn, i)) \<or> \<not> reaches_open self (u, fn, i)"
    using Cons.prems [of a] by (simp add: a)
  note step = download_image_settled [OF head]
  have same: "path_exists ?w1 p = path_exists w p" for p
    by (rule path_exists_files) (rule step(1))
  have "path_exists ?w1 (target self t) \<or> \<not> reaches_open self t" if "t \<in> set ts" for t
    using Cons.prems [of t] that by (simp add: same)
  from Cons.IH [OF this]
  have "files (snd (run_tasks self ?w1 ts)) = files ?w1"
    and "filter is_write (trace (snd (run_tasks self ?w1 ts))) = filter is_write (trace ?w1)"
    and "map status (fst (run_tasks self ?w1 ts)) =
       map (\<lambda>t. if path_exists ?w1 (target self t) then ''skipped'' else ''failed'') ts"
    by simp_all
  then show ?case
    unfolding a run_tasks_Cons using step by (simp add: same)
qed simp

lemma run_tasks_kept:
  "length (filter (\<lambda>r. status r \<noteq> ''failed'') (fst (run_tasks self w ts))) \<le>
   length (filter (\<lambda>t. path_exists (snd (run_tasks self w ts)) (target self t)) ts)"
proof (induction ts arbitrary: w)
  case (Cons a ts)
  obtain u fn i where a: "a = (u, fn, i)" by (cases a)
  let ?w1 = "snd (download_image self w u fn i)"
  have "path_exists (snd (run_tasks self ?w1 ts)) (target self (u, fn, i))"
    if "status (fst (download_image self w u fn i)) \<noteq> ''failed''"
    using download_image_kept [OF that] by (rule run_tasks_mono)
  then show ?case
    unfolding a run_tasks_Cons using Cons.IH [of ?w1] by auto
qed simp

lemma length_filter_mset:
  "mset xs = mset ys \<Longrightarrow> length (filter P xs) = length (filter P ys)"
proof -
  assume "mset xs = mset ys"
  then have "size (filter_mset P (mset xs)) = size (filter_mset P (mset ys))" by simp
  then show ?thesis by (simp only: mset_filter [symmetric] size_mset)
qed

lemma length_filter_mono:
  "(\<And>x. x \<in> set xs \<Longrightarrow> P x \<Longrightarrow> Q x) \<Longrightarrow> length (filter P xs) \<le> length (filter Q xs)"
  by (induction xs) auto

lemma length_filter_status:
  "map status rs = map f ts \<Longrightarrow>
   length (filter (\<lambda>r. status r = s) rs) = length (filter (\<lambda>t. f t = s) ts)"
proof -
  assume eq: "map status rs = map f ts"
  have "length (filter (\<lambda>r. status r = s) rs) = length (filter (\<lambda>x. x = s) (map status rs))"
    by (simp add: filter_map comp_def)
  also have "\<dots> = length (filter (\<lambda>x. x = s) (map f ts))" by (simp only: eq)
  also have "\<dots> = length (filter (\<lambda>t. f t = s) ts)" by (simp add: filter_map comp_def)
  finally show ?thesis .
qed

lemma save_failed_downloads_keeps:
  "save_failed_downloads self w fd = Inr w2 \<Longrightarrow>
   (path_exists w p \<longrightarrow> path_exists w2 p) \<and>
   filter is_write (trace w2) = filter is_write (trace w) \<and>
   (p \<noteq> ''failed_downloads.csv'' \<longrightarrow> files w2 p = files w p)"
  by (auto simp add: save_failed_downloads_def path_exists_def split: option.splits)

lemma final_keeps:
  "(path_exists (snd (run_tasks self w (completion_order sched (prepare_tasks self df urls)))) p
      \<longrightarrow> path_exists (final (download_all_images self sched w df urls)) p) \<and>
   filter is_write (trace (final (download_all_images self sched w df urls))) =
     filter is_write
       (trace (snd (run_tasks self w (completion_order sched (prepare_tasks self df urls))))) \<and>
   (p \<noteq> ''failed_downloads.csv'' \<longrightarrow>
      files (final (download_all_images self sched w df urls)) p =
      files (snd (run_tasks self w (completion_order sched (prepare_tasks self df urls)))) p)"
  unfolding final_download_all_images Let_def
  using save_failed_downloads_keeps by (auto split: sum.split)


lemma convert_image_mono:
  "path_exists w p \<Longrightarrow> path_exists (snd (convert_image conv w i out f)) p"
  by (simp add: convert_image_def path_exists_def Let_def split: save_result.split option.split)

lemma convert_image_true:
  "fst (convert_image conv w i out f) \<Longrightarrow> path_exists (snd (convert_image conv w i out f)) out"
  by (simp add: convert_image_def path_exists_def Let_def split: save_result.splits)

lemma convert_loop_Cons:
  "convert_loop conv folder fmt False (p # rest) t w =
     (if path_exists w (path_join folder (stem p @ ''.'' @ get_output_extension fmt))
      then convert_loop conv folder fmt False rest (t\<lparr>skipped_count := skipped_count t + 1\<rparr>) w
      else if fst (convert_image conv w p
                (path_join folder (stem p @ ''.'' @ get_output_extension fmt)) fmt)
      then convert_loop conv folder fmt False rest
             (t\<lparr>converted_count := converted_count t + 1\<rparr>)
             (snd (convert_image conv w p
                (path_join folder (stem p @ ''.'' @ get_output_extension fmt)) fmt))
      else convert_loop conv folder fmt False rest
             (t\<lparr>failed_count := failed_count t + 1\<rparr>)
             (snd (convert_image conv w p
                (path_join folder (stem p @ ''.'' @ get_output_extension fmt)) fmt)))"
  by (simp add: Let_def case_prod_unfold)

lemma convert_loop_mono:
  "path_exists w q \<Longrightarrow> path_exists (snd (convert_loop conv folder fmt False items t w)) q"
proof (induction items arbitrary: t w)
  case (Cons p rest)
  show ?case
    unfolding convert_loop_Cons
    using Cons.IH Cons.prems convert_image_mono by simp
qed simp

lemma convert_loop_kept:
  "converted_count (fst (convert_loop conv folder fmt False items t w))
     + skipped_count (fst (convert_loop conv folder fmt False items t w))
   \<le> converted_count t + skipped_count t
     + length (filter (\<lambda>p. path_exists (snd (convert_loop conv folder fmt False items t w))
         (path_join folder (stem p @ ''.'' @ get_output_extension fmt))) items)"
proof (induction items arbitrary: t w)
  case (Cons p rest)
  let ?out = "path_join folder (stem p @ ''.'' @ get_output_extension fmt)"
  let ?w1 = "snd (convert_image conv w p ?out fmt)"
  show ?case
  proof (cases "path_exists w ?out")
    case True
    then have "path_exists (snd (convert_loop conv folder fmt False rest
        (t\<lparr>skipped_count := skipped_count t + 1\<rparr>) w)) ?out"
      by (rule convert_loop_mono)
    then show ?thesis
      unfolding convert_loop_Cons
      using True Cons.IH [of "t\<lparr>skipped_count := skipped_count t + 1\<rparr>" w] by simp
  next
    case False
    show ?thesis
    proof (cases "fst (convert_image conv w p ?out fmt)")
      case True
      then have "path_exists ?w1 ?out" by (rule convert_image_true)
      then have "path_exists (snd (convert_loop conv folder fmt False rest
          (t\<lparr>converted_count := converted_count t + 1\<rparr>) ?w1)) ?out"
        by (rule convert_loop_mono)
      then show ?thesis
        unfolding convert_loop_Cons
        using True \<open>\<not> path_exists w ?out\<close>
          Cons.IH [of "t\<lparr>converted_count := converted_count t + 1\<rparr>" ?w1] by simp
    next
      case False
      then show ?thesis
        unfolding convert_loop_Cons
        using \<open>\<not> path_exists w ?out\<close>
          Cons.IH [of "t\<lparr>failed_count := failed_count t + 1\<rparr>" ?w1] by simp
    qed
  qed
qed simp

lemma convert_loop_skips:
  "skipped_count t
     + length (filter (\<lambda>p. path_exists w
         (path_join folder (stem p @ ''.'' @ get_output_extension fmt))) items)
   \<le> skipped_count (fst (convert_loop conv folder fmt False items t w))"
proof (induction items arbitrary: t w)
  case (Cons p rest)
  let ?out = "path_join folder (stem p @ ''.'' @ get_output_extension fmt)"
  let ?w1 = "snd (convert_image conv w p ?out fmt)"
  let ?P = "\<lambda>v p. path_exists v (path_join folder (stem p @ ''.'' @ get_output_extension fmt))"
  show ?case
  proof (cases "path_exists w ?out")
    case True
    then show ?thesis
      unfolding convert_loop_Cons
      using Cons.IH [of "t\<lparr>skipped_count := skipped_count t + 1\<rparr>" w] by simp
  next
    case False
    have grow: "length (filter (?P w) rest) \<le> length (filter (?P ?w1) rest)"
      by (rule length_filter_mono) (rule convert_image_mono)
    show ?thesis
    proof (cases "fst (convert_image conv w p ?out fmt)")
      case True
      then show ?thesis
        unfolding convert_loop_Cons
        using \<open>\<not> path_exists w ?out\<close> grow
          Cons.IH [of "t\<lparr>converted_count := converted_count t + 1\<rparr>" ?w1] by simp
    next
      case False
      then show ?thesis
        unfolding convert_loop_Cons
        using \<open>\<not> path_exists w ?out\<close> grow
          Cons.IH [of "t\<lparr>failed_count := failed_count t + 1\<rparr>" ?w1] by simp
    qed
  qed
qed simp

lemma mkdir_p_mono: "mkdir_p w p = Some w' \<Longrightarrow> path_exists w q \<Longrightarrow> path_exists w' q"
  by (auto simp add: mkdir_p_def path_exists_def split: option.splits node.splits)

lemma bulk_convert_Done:
  "fst (bulk_convert conv v src folder fmt rec False) = Done t \<Longrightarrow>
   \<exists>v0. mkdir_p v folder = Some v0 \<and>
     t = fst (convert_loop conv folder fmt False (image_files conv src rec)
           \<lparr>converted_count = 0, skipped_count = 0, failed_count = 0\<rparr> v0) \<and>
     snd (bulk_convert conv v src folder fmt rec False) =
       snd (convert_loop conv folder fmt False (image_files conv src rec)
           \<lparr>converted_count = 0, skipped_count = 0, failed_count = 0\<rparr> v0)"
  by (auto simp add: bulk_convert_def Let_def case_prod_unfold split: if_splits option.splits)

lemma bulk_convert_twice:
  assumes "fst (bulk_convert conv v src folder fmt rec False) = Done t1"
    and "fst (bulk_convert conv (snd (bulk_convert conv v src folder fmt rec False))
           src folder fmt rec False) = Done t2"
  shows "converted_count t1 + skipped_count t1 \<le> skipped_count t2"
proof -
  let ?zero = "\<lparr>converted_count = 0, skipped_count = 0, failed_count = 0\<rparr>"
  let ?items = "image_files conv src rec"
  let ?P = "\<lambda>v p. path_exists v (path_join folder (stem p @ ''.'' @ get_output_extension fmt))"
  let ?v1 = "snd (bulk_convert conv v src folder fmt rec False)"
  from bulk_convert_Done [OF assms(1)] obtain v0 where
    t1: "t1 = fst (convert_loop conv folder fmt False ?items ?zero v0)"
    and v1: "?v1 = snd (convert_loop conv folder fmt False ?items ?zero v0)"
    by blast
  from bulk_convert_Done [OF assms(2)] obtain v1' where
    mk: "mkdir_p ?v1 folder = Some v1'"
    and t2: "t2 = fst (convert_loop conv folder fmt False ?items ?zero v1')"
    by blast
  have "converted_count t1 + skipped_count t1 \<le> length (filter (?P ?v1) ?items)"
    using convert_loop_kept [of conv folder fmt ?items ?zero v0] by (simp add: t1 v1)
  also have "\<dots> \<le> length (filter (?P v1') ?items)"
    by (rule length_filter_mono) (rule mkdir_p_mono [OF mk])
  also have "\<dots> \<le> skipped_count t2"
    using convert_loop_skips [of ?zero v1' folder fmt ?items conv] by (simp add: t2)
  finally show ?thesis .
qed

lemma kept_le_not_failed:
  "length (filter (\<lambda>r. status r = ''success'') rs) + length (filter (\<lambda>r. status r = ''skipped'') rs)
     \<le> length (filter (\<lambda>r. status r \<noteq> ''failed'') rs)"
  by (induction rs) auto

text \<open>
  C5, as the code has it. The claim equates the second run's skipped count with the
  first run's success count. A download that fails in mid-transfer leaves its file;
  the first run then has no success, and the second run skips the item because the
  file is there.
\<close>

theorem rerun_counterexample:
  "(let r1 = download_all_images example [] example_world (Some example_df) [''http://h/b.png''];
        r2 = download_all_images example [] (final r1) (Some example_df) [''http://h/b.png'']
    in successful (report r1) = 0 \<and> failed (report r1) = 1 \<and> skipped (report r2) = 1)"
  by code_simp

text \<open>
  C5, amended. Run \<^verbatim>\<open>download_all_images\<close> twice on the same URLs, the second
  time on the file system the first run has left, with the external operations
  behaving as before, in any two orders of completion. The second run skips exactly
  the tasks whose target exists after the first run: these are at least the tasks the
  first run downloaded or skipped, and also those whose failed download has left a
  file. The second run downloads nothing, opens no target for writing and changes no
  path but, if it has failures, the retry list. For \<^verbatim>\<open>bulk_convert\<close> with
  \<^verbatim>\<open>overwrite\<close> false, run twice in the same way: every file converted or skipped
  by the first run is skipped by the second.
\<close>

theorem rerun_skips_existing_targets:
  "(let r1 = download_all_images self s1 w df urls;
        r2 = download_all_images self s2 (final r1) df urls
    in skipped (report r2) =
         length (filter (\<lambda>t. path_exists (final r1) (target self t)) (prepare_tasks self df urls)) \<and>
       successful (report r1) + skipped (report r1) \<le> skipped (report r2) \<and>
       successful (report r2) = 0 \<and>
       filter is_write (trace (final r2)) = filter is_write (trace (final r1)) \<and>
       (\<forall>p. p \<noteq> ''failed_downloads.csv'' \<longrightarrow> files (final r2) p = files (final r1) p)) \<and>
   (fst (bulk_convert conv v src folder fmt rec False) = Done t1 \<and>
    fst (bulk_convert conv (snd (bulk_convert conv v src folder fmt rec False))
          src folder fmt rec False) = Done t2 \<longrightarrow>
      converted_count t1 + skipped_count t1 \<le> skipped_count t2)"
proof -
  define tasks where "tasks = prepare_tasks self df urls"
  define ts1 where "ts1 = completion_order s1 tasks"
  define ts2 where "ts2 = completion_order s2 tasks"
  define r1 where "r1 = download_all_images self s1 w df urls"
  define r2 where "r2 = download_all_images self s2 (final r1) df urls"
  define w1 where "w1 = snd (run_tasks self w ts1)"
  define w2 where "w2 = snd (run_tasks self (final r1) ts2)"
  define f where "f = (\<lambda>t. if path_exists (final r1) (target self t) then ''skipped'' else ''failed'')"
  have m1: "mset ts1 = mset tasks" and m2: "mset ts2 = mset tasks"
    by (simp_all add: ts1_def ts2_def mset_completion_order)
  then have s1: "set ts1 = set tasks" and s2: "set ts2 = set tasks"
    by (auto dest: mset_eq_setD)
  have res1: "results r1 = fst (run_tasks self w ts1)"
    and res2: "results r2 = fst (run_tasks self (final r1) ts2)"
    by (simp_all add: r1_def r2_def ts1_def ts2_def tasks_def results_download_all_images)
  have rep1: "report r1 = generate_report (results r1)"
    and rep2: "report r2 = generate_report (results r2)"
    by (simp_all add: r1_def r2_def report_download_all_images)
  have keep1: "path_exists w1 p \<Longrightarrow> path_exists (final r1) p" for p
    using final_keeps [of self w s1 df urls p]
    by (simp add: r1_def w1_def ts1_def tasks_def)
  have keep2: "filter is_write (trace (final r2)) = filter is_write (trace w2)"
    and keep3: "p \<noteq> ''failed_downloads.csv'' \<Longrightarrow> files (final r2) p = files w2 p" for p
    using final_keeps [of self "final r1" s2 df urls p]
    by (simp_all add: r2_def w2_def ts2_def tasks_def)
  have "path_exists (final r1) (target self t) \<or> \<not> reaches_open self t" if "t \<in> set ts2" for t
  proof -
    from that have "t \<in> set ts1" by (simp add: s1 s2)
    from run_tasks_settles [OF this, of self w] keep1 show ?thesis
      by (auto simp add: w1_def)
  qed
  from run_tasks_settled [OF this]
  have same: "files w2 = files (final r1)"
    and quiet: "filter is_write (trace w2) = filter is_write (trace (final r1))"
    and st: "map status (results r2) = map f ts2"
    by (simp_all add: w2_def res2 f_def)
  have sk: "skipped (report r2) =
      length (filter (\<lambda>t. path_exists (final r1) (target self t)) tasks)"
  proof -
    have "skipped (report r2) = length (filter (\<lambda>t. f t = ''skipped'') ts2)"
      by (simp add: rep2 generate_report_def length_filter_status [OF st])
    also have "\<dots> = length (filter (\<lambda>t. path_exists (final r1) (target self t)) ts2)"
      by (simp add: f_def)
    finally show ?thesis by (simp only: length_filter_mset [OF m2])
  qed
  have su: "successful (report r2) = 0"
  proof -
    have "successful (report r2) = length (filter (\<lambda>t. f t = ''success'') ts2)"
      by (simp add: rep2 generate_report_def length_filter_status [OF st])
    then show ?thesis by (simp add: f_def)
  qed
  have le: "successful (report r1) + skipped (report r1) \<le> skipped (report r2)"
  proof -
    have "successful (report r1) + skipped (report r1)
        \<le> length (filter (\<lambda>r. status r \<noteq> ''failed'') (results r1))"
      using kept_le_not_failed [of "results r1"] by (simp add: rep1 generate_report_def)
    also have "\<dots> \<le> length (filter (\<lambda>t. path_exists w1 (target self t)) ts1)"
      unfolding res1 w1_def by (rule run_tasks_kept)
    also have "\<dots> \<le> length (filter (\<lambda>t. path_exists (final r1) (target self t)) ts1)"
      by (rule length_filter_mono) (rule keep1)
    also have "\<dots> = length (filter (\<lambda>t. path_exists (final r1) (target self t)) tasks)"
      by (rule length_filter_mset [OF m1])
    finally show ?thesis by (simp only: sk)
  qed
  have "skipped (report r2) =
         length (filter (\<lambda>t. path_exists (final r1) (target self t)) (prepare_tasks self df urls)) \<and>
       successful (report r1) + skipped (report r1) \<le> skipped (report r2) \<and>
       successful (report r2) = 0 \<and>
       filter is_write (trace (final r2)) = filter is_write (trace (final r1)) \<and>
       (\<forall>p. p \<noteq> ''failed_downloads.csv'' \<longrightarrow> files (final r2) p = files (final r1) p)"
    using sk le su keep2 keep3 quiet same by (simp add: tasks_def)
  then have "let r1 = download_all_images self s1 w df urls;
        r2 = download_all_images self s2 (final r1) df urls
    in skipped (report r2) =
         length (filter (\<lambda>t. path_exists (final r1) (target self t)) (prepare_tasks self df urls)) \<and>
       successful (report r1) + skipped (report r1) \<le> skipped (report r2) \<and>
       successful (report r2) = 0 \<and>
       filter is_write (trace (final r2)) = filter is_write (trace (final r1)) \<and>
       (\<forall>p. p \<noteq> ''failed_downloads.csv'' \<longrightarrow> files (final r2) p = files (final r1) p)"
    unfolding r1_def r2_def Let_def .
  then show ?thesis
    using bulk_convert_twice by blast
qed

theorem rerun_skips_existing_targets_witness:
  "(let r1 = download_all_images example [2, 0] example_world (Some example_df)
               [''http://h/a.png'', ''http://h/b.png'', ''http://h/c.png''];
        r2 = download_all_images example [1] (final r1) (Some example_df)
               [''http://h/a.png'', ''http://h/b.png'', ''http://h/c.png'']
    in successful (report r1) = 1 \<and> skipped (report r1) = 0 \<and> skipped (report r2) = 2 \<and>
       successful (report r2) = 0 \<and>
       filter is_write (trace (final r2)) = filter is_write (trace (final r1))) \<and>
   fst (bulk_convert example_converter example_world ''in'' ''conv'' ''png'' False False) =
     Done \<lparr>converted_count = 2, skipped_count = 0, failed_count = 1\<rparr> \<and>
   fst (bulk_convert example_converter
         (snd (bulk_convert example_converter example_world ''in'' ''conv'' ''png'' False False))
         ''in'' ''conv'' ''png'' False False) =
     Done \<lparr>converted_count = 0, skipped_count = 2, failed_count = 1\<rparr>"
proof -
  define r1 where "r1 = download_all_images example [2, 0] example_world (Some example_df)
               [''http://h/a.png'', ''http://h/b.png'', ''http://h/c.png'']"
  have first: "successful (report r1) = 1 \<and> skipped (report r1) = 0"
    unfolding r1_def by code_simp
  have there: "length (filter (\<lambda>t. path_exists (final r1) (target example t))
      (prepare_tasks example (Some example_df)
         [''http://h/a.png'', ''http://h/b.png'', ''http://h/c.png''])) = 2"
    unfolding r1_def by code_simp
  have c1: "fst (bulk_convert example_converter example_world ''in'' ''conv'' ''png'' False False) =
     Done \<lparr>converted_count = 2, skipped_count = 0, failed_count = 1\<rparr>"
    by code_simp
  have c2: "fst (bulk_convert example_converter
         (snd (bulk_convert example_converter example_world ''in'' ''conv'' ''png'' False False))
         ''in'' ''conv'' ''png'' False False) =
     Done \<lparr>converted_count = 0, skipped_count = 2, failed_count = 1\<rparr>"
    by code_simp
  show ?thesis
    using rerun_skips_existing_targets [where self = example and ?s1.0 = "[2, 0]" and ?s2.0 = "[1]"
        and w = example_world and df = "Some example_df"
        and urls = "[''http://h/a.png'', ''http://h/b.png'', ''http://h/c.png'']"
        and conv = example_converter and v = example_world and src = "''in''"
        and folder = "''conv''" and fmt = "''png''" and rec = False
        and ?t1.0 = "\<lparr>converted_count = 2, skipped_count = 0, failed_count = 1\<rparr>"
        and ?t2.0 = "\<lparr>converted_count = 0, skipped_count = 2, failed_count = 1\<rparr>"]
      first there c1 c2
    unfolding r1_def Let_def by simp
qed

end
